theory Spec2Isabelle
  imports Complex_Main "HOL-Library.Word"
begin

section \<open>Values crossing the JavaScript boundary\<close>

text \<open>
  A JavaScript number is an IEEE double. The model keeps the three special values apart
  and takes every finite double as the rational it denotes (every finite double is a
  dyadic rational, so the finite doubles are a subset of \<open>Finite\<close>; negative zero
  compares and converts as zero does).
\<close>

datatype double = Finite rat | PosInf | NegInf | NaN

text \<open>The C++ comparison \<^verbatim>\<open>d <= 0\<close> on a double: false on NaN.\<close>

fun double_le0 :: "double \<Rightarrow> bool" where
  "double_le0 (Finite q) = (q \<le> 0)"
| "double_le0 NegInf = True"
| "double_le0 PosInf = False"
| "double_le0 NaN = False"

fun double_gt0 :: "double \<Rightarrow> bool" where
  "double_gt0 (Finite q) = (0 < q)"
| "double_gt0 PosInf = True"
| "double_gt0 NegInf = False"
| "double_gt0 NaN = False"


text \<open>
  The implicit conversion of \<^verbatim>\<open>int maxmemArg = <double>\<close>: the fractional part is
  discarded (truncation towards zero). When the truncated value is not a value of
  \<^verbatim>\<open>int\<close> (32 bits, two's complement) C++ leaves the behaviour undefined; the model
  takes what the platform produces there as the parameter \<open>oor\<close>.
\<close>

definition trunc :: "rat \<Rightarrow> int" where
  "trunc q = (if 0 \<le> q then \<lfloor>q\<rfloor> else \<lceil>q\<rceil>)"

fun int_representable :: "double \<Rightarrow> bool" where
  "int_representable (Finite q) = (- (2 ^ 31) \<le> trunc q \<and> trunc q < 2 ^ 31)"
| "int_representable PosInf = False"
| "int_representable NegInf = False"
| "int_representable NaN = False"

definition double_to_int :: "(double \<Rightarrow> 32 word) \<Rightarrow> double \<Rightarrow> 32 word" where
  "double_to_int oor d =
     (case d of
        Finite q \<Rightarrow> if int_representable d then word_of_int (trunc q) else oor d
      | PosInf \<Rightarrow> oor d
      | NegInf \<Rightarrow> oor d
      | NaN \<Rightarrow> oor d)"

text \<open>
  The arguments of the two calls of \<^verbatim>\<open>Integer::New\<close>: an \<^verbatim>\<open>int\<close> (for N) or a
  \<^verbatim>\<open>uint32_t\<close> (for r and p). The host's constructor is not part of the repository, so
  the value handed to it is recorded with its C++ type.
\<close>

datatype cxx_int = Int32 "32 word" | UInt32 "32 word"

datatype jsvalue =
    Undefined
  | Null
  | Number double
  | String_New string
  | Function nat
  | Integer_New cxx_int
  | Object "(string \<times> jsvalue) list"
  | Exception_TypeError string
  | Exception_Error string

fun IsFunction :: "jsvalue \<Rightarrow> bool" where
  "IsFunction (Function f) = True"
| "IsFunction v = False"

fun IsNumber :: "jsvalue \<Rightarrow> bool" where
  "IsNumber (Number d) = True"
| "IsNumber v = False"

text \<open>\<^verbatim>\<open>args[i]\<close>: the host returns undefined outside the argument list.\<close>

definition arg_at :: "jsvalue list \<Rightarrow> nat \<Rightarrow> jsvalue" where
  "arg_at args i = (if i < length args then args ! i else Undefined)"

section \<open>The baton and the reference parameters\<close>

definition maxmem_default :: "64 word" where
  "maxmem_default = 0"

definition maxmemfrac_default :: double where
  "maxmemfrac_default = Finite (1 / 2)"

record Baton =
  callback :: jsvalue
  result :: "32 word"
  maxmem :: "64 word"
  maxmemfrac :: double
  maxtime :: double
  N :: "32 word"
  r :: "32 word"
  p :: "32 word"

text \<open>
  The variables \<^verbatim>\<open>Params\<close> declares and passes to \<^verbatim>\<open>ValidateArguments\<close> by
  reference.
\<close>

record outs =
  message :: string
  out_maxmem :: "64 word"
  out_maxmemfrac :: double
  out_maxtime :: double
  callbackPosition :: int

section \<open>Effects\<close>

text \<open>
  What a call does besides returning: the calls of \<^verbatim>\<open>pickparams\<close>, the exceptions
  thrown into the caller, the work requests queued, the calls of the stored callback,
  the exceptions forwarded to \<^verbatim>\<open>node::FatalException\<close>, and the releases. The host
  calls are recorded and taken to return: \<^verbatim>\<open>uv_queue_work\<close> with status 0, as the
  assertion after it demands, and \<^verbatim>\<open>node::FatalException\<close> to the statement after it.
\<close>

datatype event =
    Pickparams "64 word" double double
  | ThrowException jsvalue
  | uv_queue_work Baton
  | Call jsvalue "jsvalue list"
  | FatalException jsvalue
  | Dispose jsvalue
  | delete_baton
  | delete_req

text \<open>
  The collaborators outside the repository: \<^verbatim>\<open>pickparams\<close> (its return code and what it
  leaves in N, r and p, which both callers initialise to zero), \<^verbatim>\<open>ScryptErrorDescr\<close>,
  the platform's out-of-range conversion of a double to \<^verbatim>\<open>int\<close>, and what the
  try-catch block has caught after the callback was called with the given arguments.
\<close>

record env =
  pickparams :: "64 word \<Rightarrow> double \<Rightarrow> double \<Rightarrow> 32 word \<times> 32 word \<times> 32 word \<times> 32 word"
  ScryptErrorDescr :: "32 word \<Rightarrow> string"
  oor :: "double \<Rightarrow> 32 word"
  HasCaught :: "jsvalue \<Rightarrow> jsvalue list \<Rightarrow> jsvalue option"

section \<open>ValidateArguments\<close>

text \<open>
  The body of the \<^verbatim>\<open>for\<close> loop at index \<open>i\<close>, over the arguments from \<open>i\<close> on. The
  result is the return code and the reference parameters as the function leaves them.
\<close>

fun scan :: "(double \<Rightarrow> 32 word) \<Rightarrow> nat \<Rightarrow> jsvalue list \<Rightarrow> outs \<Rightarrow> int \<times> outs" where
  "scan cv i [] v = (0, v)"
| "scan cv i (a # rest) v =
     (if 0 < i \<and> IsFunction a then (0, v\<lparr>callbackPosition := int i\<rparr>)
      else if i = 0 then
        (case a of
           Number d \<Rightarrow>
             (if double_le0 d
              then (1, v\<lparr>out_maxtime := d, message := ''maxtime must be greater than 0''\<rparr>)
              else scan cv (Suc i) rest (v\<lparr>out_maxtime := d\<rparr>))
         | _ \<Rightarrow> (1, v\<lparr>message := ''maxtime argument must be a number''\<rparr>))
      else if i = 1 then
        (case a of
           Number d \<Rightarrow>
             scan cv (Suc i) rest
               (v\<lparr>out_maxmemfrac := (if double_le0 d then maxmemfrac_default else d)\<rparr>)
         | _ \<Rightarrow> (1, v\<lparr>message := ''max_memfrac argument must be a number''\<rparr>))
      else if i = 2 then
        (case a of
           Number d \<Rightarrow>
             (let maxmemArg = double_to_int cv d in
              scan cv (Suc i) rest
                (v\<lparr>out_maxmem := (if sint maxmemArg < 0 then maxmem_default
                                   else scast maxmemArg)\<rparr>))
         | _ \<Rightarrow> (1, v\<lparr>message := ''maxmem argument must be a number''\<rparr>))
      else scan cv (Suc i) rest v)"

definition ValidateArguments :: "(double \<Rightarrow> 32 word) \<Rightarrow> jsvalue list \<Rightarrow> outs \<Rightarrow> int \<times> outs" where
  "ValidateArguments cv args v =
     (if length args = 0
      then (1, v\<lparr>message :=
        ''Wrong number of arguments: At least one argument is needed - the maxtime''\<rparr>)
      else if 0 < length args \<and> IsFunction (arg_at args 0)
      then (1, v\<lparr>message :=
        ''Wrong number of arguments: At least one argument is needed before the callback - the maxtime''\<rparr>)
      else scan cv 0 args v)"

section \<open>The result encoder\<close>

text \<open>\<^verbatim>\<open>Object::Set\<close> on the property list: a new key goes last, a known key keeps its place.\<close>

fun Set_prop :: "string \<Rightarrow> jsvalue \<Rightarrow> (string \<times> jsvalue) list \<Rightarrow> (string \<times> jsvalue) list" where
  "Set_prop k v [] = [(k, v)]"
| "Set_prop k v ((k', v') # ps) = (if k = k' then (k, v) # ps else (k', v') # Set_prop k v ps)"

definition createJSONObject :: "32 word \<Rightarrow> 32 word \<Rightarrow> 32 word \<Rightarrow> jsvalue" where
  "createJSONObject n r' p' =
     Object (Set_prop ''p'' (Integer_New (UInt32 p'))
            (Set_prop ''r'' (Integer_New (UInt32 r'))
            (Set_prop ''N'' (Integer_New (Int32 n)) [])))"

section \<open>The executors\<close>

definition ParamsSync :: "env \<Rightarrow> 64 word \<Rightarrow> double \<Rightarrow> double \<Rightarrow> jsvalue \<times> event list" where
  "ParamsSync e mm mf mt =
     (case pickparams e mm mf mt of
        (res, n, r', p') \<Rightarrow>
          if res \<noteq> 0
          then (Undefined,
                [Pickparams mm mf mt,
                 ThrowException (Exception_TypeError (ScryptErrorDescr e res))])
          else (createJSONObject n r' p', [Pickparams mm mf mt]))"

definition ParamsWork :: "env \<Rightarrow> Baton \<Rightarrow> Baton \<times> event list" where
  "ParamsWork e baton =
     (case pickparams e (maxmem baton) (maxmemfrac baton) (maxtime baton) of
        (res, n, r', p') \<Rightarrow>
          (baton\<lparr>result := res, N := n, r := r', p := p'\<rparr>,
           [Pickparams (maxmem baton) (maxmemfrac baton) (maxtime baton)]))"

text \<open>The call of the callback inside its try-catch block.\<close>

definition call_callback :: "env \<Rightarrow> jsvalue \<Rightarrow> jsvalue list \<Rightarrow> event list" where
  "call_callback e f argv =
     Call f argv # (case HasCaught e f argv of Some ex \<Rightarrow> [FatalException ex] | None \<Rightarrow> [])"

definition ParamsAsyncAfter :: "env \<Rightarrow> Baton \<Rightarrow> event list" where
  "ParamsAsyncAfter e baton =
     (if result baton \<noteq> 0
      then call_callback e (callback baton)
             [Exception_Error (ScryptErrorDescr e (result baton))]
      else call_callback e (callback baton)
             [Null, createJSONObject (N baton) (r baton) (p baton)])
     @ [Dispose (callback baton), delete_baton, delete_req]"

text \<open>
  The locals of \<^verbatim>\<open>Params\<close> as it initialises them. The baton of an asynchronous request
  comes from \<^verbatim>\<open>new Baton()\<close>, which leaves zero in the fields \<^verbatim>\<open>Params\<close> does not
  assign.
\<close>

definition locals :: outs where
  "locals =
     \<lparr>message = [], out_maxmem = maxmem_default, out_maxmemfrac = maxmemfrac_default,
      out_maxtime = Finite 0, callbackPosition = - 1\<rparr>"

definition Params :: "env \<Rightarrow> jsvalue list \<Rightarrow> jsvalue \<times> event list" where
  "Params e args =
     (case ValidateArguments (oor e) args locals of
        (rc, v) \<Rightarrow>
          if rc \<noteq> 0 then (Undefined, [ThrowException (Exception_TypeError (message v))])
          else if callbackPosition v = - 1
          then ParamsSync e (out_maxmem v) (out_maxmemfrac v) (out_maxtime v)
          else (Undefined,
                [uv_queue_work
                   \<lparr>callback = arg_at args (nat (callbackPosition v)), result = 0,
                    maxmem = out_maxmem v, maxmemfrac = out_maxmemfrac v,
                    maxtime = out_maxtime v, N = 0, r = 0, p = 0\<rparr>]))"

text \<open>
  The work queue's contract for one request: the work function runs on the baton, then
  the after-work function runs on what it left.
\<close>

fun run_work :: "env \<Rightarrow> event \<Rightarrow> event list" where
  "run_work e (uv_queue_work baton) =
     (case ParamsWork e baton of (baton', evs) \<Rightarrow> evs @ ParamsAsyncAfter e baton')"
| "run_work e ev = []"

definition request :: "env \<Rightarrow> jsvalue list \<Rightarrow> jsvalue \<times> event list" where
  "request e args =
     (case Params e args of (ret, evs) \<Rightarrow> (ret, evs @ concat (map (run_work e) evs)))"

section \<open>Notions the properties are stated with\<close>

text \<open>
  The positions the scan reads as parameters: the first argument, and the arguments after
  it up to, and without, the first callable.
\<close>

definition positional :: "jsvalue list \<Rightarrow> jsvalue list" where
  "positional args =
     (case args of [] \<Rightarrow> [] | a0 # rest \<Rightarrow> a0 # takeWhile (\<lambda>a. \<not> IsFunction a) rest)"

text \<open>
  The validation failures: an empty argument list, a callable as the first argument, a
  value that is not a number at index 0, 1 or 2 before any callable, or a maxtime that
  is a number and \<^verbatim>\<open><= 0\<close>.
\<close>

definition validation_failure :: "jsvalue list \<Rightarrow> bool" where
  "validation_failure args =
     (case args of
        [] \<Rightarrow> True
      | a0 # rest \<Rightarrow>
          IsFunction a0
          \<or> (\<exists>a \<in> set (take 3 (positional args)). \<not> IsNumber a)
          \<or> (case a0 of Number d \<Rightarrow> double_le0 d | _ \<Rightarrow> False))"

text \<open>The calls of the resolver and of the callback in a list of effects, in order.\<close>

fun resolver_calls :: "event list \<Rightarrow> (64 word \<times> double \<times> double) list" where
  "resolver_calls [] = []"
| "resolver_calls (Pickparams mm mf mt # evs) = (mm, mf, mt) # resolver_calls evs"
| "resolver_calls (ev # evs) = resolver_calls evs"

fun callback_calls :: "event list \<Rightarrow> (jsvalue \<times> jsvalue list) list" where
  "callback_calls [] = []"
| "callback_calls (Call f argv # evs) = (f, argv) # callback_calls evs"
| "callback_calls (ev # evs) = callback_calls evs"

text \<open>
  A stub environment for concrete runs: a resolver that returns the code \<open>res\<close> and the
  triple (16384, 8, 1), a two-entry message table, the out-of-range conversion of x86
  (\<^verbatim>\<open>cvttsd2si\<close> yields 0x80000000), and a callback that raises \<open>caught\<close>, if any.
\<close>

definition x86_cvttsd2si :: "double \<Rightarrow> 32 word" where
  "x86_cvttsd2si d = 0x80000000"


definition stub_env :: "32 word \<Rightarrow> jsvalue option \<Rightarrow> env" where
  "stub_env res caught =
     \<lparr>pickparams = (\<lambda>mm mf mt. (res, 16384, 8, 1)),
      ScryptErrorDescr =
        (\<lambda>c. if c = 1 then ''getrlimit or sysctl(hw.usermem) failed'' else ''error''),
      oor = x86_cvttsd2si,
      HasCaught = (\<lambda>f argv. caught)\<rparr>"

section \<open>The scan: structure of the loop\<close>

lemma scan_ignore:
  "3 \<le> i \<Longrightarrow> \<forall>a \<in> set xs. \<not> IsFunction a \<Longrightarrow> scan cv i xs v = (0, v)"
  by (induction xs arbitrary: i) auto

lemma scan_stop:
  "0 < i \<Longrightarrow> \<forall>a \<in> set pre. \<not> IsFunction a \<Longrightarrow>
   scan cv i (pre @ Function f # post) v =
     (case scan cv i pre v of
        (rc, v') \<Rightarrow> if rc = 0 then (0, v'\<lparr>callbackPosition := int (i + length pre)\<rparr>) else (rc, v'))"
proof (induction pre arbitrary: i v)
  case Nil
  then show ?case by simp
next
  case (Cons a pre)
  then show ?case
    by (cases a) (auto simp: Let_def split: prod.splits)
qed

lemma IsFunction_iff: "IsFunction a \<longleftrightarrow> (\<exists>f. a = Function f)"
  by (cases a) simp_all

lemma IsNumber_iff: "IsNumber a \<longleftrightarrow> (\<exists>d. a = Number d)"
  by (cases a) simp_all

lemma takeWhile_split:
  "rest = takeWhile (\<lambda>a. \<not> IsFunction a) rest
   \<or> (\<exists>f post. rest = takeWhile (\<lambda>a. \<not> IsFunction a) rest @ Function f # post)"
  by (induction rest) (auto simp: IsFunction_iff)

lemma positional_split:
  "args = positional args \<or> (\<exists>f post. args = positional args @ Function f # post)"
  using takeWhile_split [of "tl args"]
  by (cases args) (auto simp: positional_def)

lemma positional_tl_free: "\<forall>a \<in> set (tl (positional args)). \<not> IsFunction a"
  by (cases args) (auto simp: positional_def dest: set_takeWhileD)

lemma ValidateArguments_stop:
  assumes "\<forall>a \<in> set pre. \<not> IsFunction a"
  shows "ValidateArguments cv (a0 # pre @ Function f # post) v =
     (case ValidateArguments cv (a0 # pre) v of
        (rc, v') \<Rightarrow> if rc = 0 then (0, v'\<lparr>callbackPosition := int (Suc (length pre))\<rparr>) else (rc, v'))"
  using assms scan_stop [of 1 pre cv f post]
  by (cases a0) (auto simp: ValidateArguments_def arg_at_def split: prod.splits)


lemma ValidateArguments_positional:
  "ValidateArguments cv args v =
     (case ValidateArguments cv (positional args) v of
        (rc, v') \<Rightarrow>
          if rc = 0 \<and> length (positional args) < length args
          then (0, v'\<lparr>callbackPosition := int (length (positional args))\<rparr>)
          else (rc, v'))"
proof -
  consider (same) "args = positional args"
    | (stop) f post where "args = positional args @ Function f # post"
    using positional_split by blast
  then show ?thesis
  proof cases
    case same
    then have "length (positional args) = length args" by simp
    moreover have "ValidateArguments cv args v = ValidateArguments cv (positional args) v"
      using same by simp
    ultimately show ?thesis by (simp split: prod.splits)
  next
    case stop
    then have "args \<noteq> []" by auto
    then obtain a0 pre where pos: "positional args = a0 # pre"
      by (cases args) (auto simp: positional_def)
    have free: "\<forall>a \<in> set pre. \<not> IsFunction a"
      using positional_tl_free [of args] pos by simp
    have len: "length (positional args) < length args"
      using arg_cong [OF stop, of length] by simp
    have "ValidateArguments cv args v = ValidateArguments cv (a0 # pre @ Function f # post) v"
      using stop pos by simp
    also have "\<dots> = (case ValidateArguments cv (a0 # pre) v of
        (rc, v') \<Rightarrow> if rc = 0 then (0, v'\<lparr>callbackPosition := int (Suc (length pre))\<rparr>) else (rc, v'))"
      by (rule ValidateArguments_stop [OF free])
    finally show ?thesis using len pos by (simp split: prod.splits)
  qed
qed

lemma ValidateArguments_shape1:
  "\<not> double_le0 t \<Longrightarrow> ValidateArguments cv [Number t] v = (0, v\<lparr>out_maxtime := t\<rparr>)"
  by (simp add: ValidateArguments_def arg_at_def)

lemma ValidateArguments_shape2:
  "\<not> double_le0 t \<Longrightarrow> ValidateArguments cv [Number t, Number f] v =
     (0, v\<lparr>out_maxtime := t,
            out_maxmemfrac := (if double_le0 f then maxmemfrac_default else f)\<rparr>)"
  by (simp add: ValidateArguments_def arg_at_def)

lemma ValidateArguments_shape3:
  "\<not> double_le0 t \<Longrightarrow> \<forall>a \<in> set extra. \<not> IsFunction a \<Longrightarrow>
   ValidateArguments cv (Number t # Number f # Number m # extra) v =
     (0, v\<lparr>out_maxtime := t,
            out_maxmemfrac := (if double_le0 f then maxmemfrac_default else f),
            out_maxmem := (if sint (double_to_int cv m) < 0 then maxmem_default
                           else scast (double_to_int cv m))\<rparr>)"
  by (simp add: ValidateArguments_def arg_at_def scan_ignore Let_def numeral_2_eq_2)

lemma valid_shape:
  assumes "\<not> validation_failure args"
  shows "\<exists>t. \<not> double_le0 t \<and>
     (positional args = [Number t]
      \<or> (\<exists>f. positional args = [Number t, Number f])
      \<or> (\<exists>f m extra. positional args = Number t # Number f # Number m # extra
            \<and> (\<forall>a \<in> set extra. \<not> IsFunction a)))"
proof -
  from assms obtain a0 rest where args: "args = a0 # rest"
    by (cases args) (auto simp: validation_failure_def)
  define ps where "ps = takeWhile (\<lambda>a. \<not> IsFunction a) rest"
  have pos: "positional args = a0 # ps"
    by (simp add: args positional_def ps_def)
  have free: "\<forall>a \<in> set ps. \<not> IsFunction a"
    by (auto simp: ps_def dest: set_takeWhileD)
  from assms have nums: "\<forall>a \<in> set (take 3 (a0 # ps)). IsNumber a"
    and t: "\<not> (case a0 of Number d \<Rightarrow> double_le0 d | _ \<Rightarrow> False)"
    using pos by (auto simp: validation_failure_def args)
  from nums obtain t where a0: "a0 = Number t"
    by (auto simp: IsNumber_iff)
  with t have le: "\<not> double_le0 t" by simp
  show ?thesis
  proof (cases ps)
    case Nil
    with pos a0 le show ?thesis by auto
  next
    case (Cons b ps')
    with nums obtain f where b: "b = Number f"
      by (auto simp: IsNumber_iff)
    show ?thesis
    proof (cases ps')
      case Nil
      with pos a0 le b Cons show ?thesis by auto
    next
      case (Cons c extra)
      with nums \<open>ps = b # ps'\<close> obtain m where c: "c = Number m"
        by (auto simp: IsNumber_iff numeral_3_eq_3)
      from free Cons \<open>ps = b # ps'\<close> have "\<forall>a \<in> set extra. \<not> IsFunction a" by simp
      with pos a0 le b c Cons \<open>ps = b # ps'\<close> show ?thesis by auto
    qed
  qed
qed


lemma scan_not_number:
  "\<not> IsNumber a \<Longrightarrow> i = 0 \<or> \<not> IsFunction a \<Longrightarrow> i < 3 \<Longrightarrow>
   fst (scan cv i (a # rest) v) = 1"
  by (cases a) (auto simp: numeral_3_eq_3 less_Suc_eq)

lemma validation_failure_rc:
  assumes "validation_failure args"
  shows "fst (ValidateArguments cv args v) = 1"
proof (cases args)
  case Nil
  then show ?thesis by (simp add: ValidateArguments_def)
next
  case (Cons a0 rest)
  define ps where "ps = takeWhile (\<lambda>a. \<not> IsFunction a) rest"
  have pos: "positional args = a0 # ps"
    by (simp add: Cons positional_def ps_def)
  have free: "\<forall>a \<in> set ps. \<not> IsFunction a"
    by (auto simp: ps_def dest: set_takeWhileD)
  have "fst (ValidateArguments cv (a0 # ps) v) = 1"
  proof (cases "IsFunction a0")
    case True
    then show ?thesis by (simp add: ValidateArguments_def arg_at_def)
  next
    case nf: False
    show ?thesis
    proof (cases "IsNumber a0")
      case False
      with nf show ?thesis
        using scan_not_number [of a0 0 cv ps v]
        by (simp add: ValidateArguments_def arg_at_def)
    next
      case True
      then obtain t where a0: "a0 = Number t" by (auto simp: IsNumber_iff)
      show ?thesis
      proof (cases "double_le0 t")
        case True
        with a0 show ?thesis by (simp add: ValidateArguments_def arg_at_def)
      next
        case le: False
        with assms a0 nf pos Cons have bad: "\<exists>a \<in> set (take 2 ps). \<not> IsNumber a"
          by (auto simp: validation_failure_def numeral_3_eq_3 numeral_2_eq_2)
        then obtain b ps' where ps: "ps = b # ps'" by (cases ps) auto
        show ?thesis
        proof (cases "IsNumber b")
          case False
          with free ps a0 le show ?thesis
            using scan_not_number [of b 1 cv ps' "v\<lparr>out_maxtime := t\<rparr>"]
            by (simp add: ValidateArguments_def arg_at_def)
        next
          case True
          then obtain f where b: "b = Number f" by (auto simp: IsNumber_iff)
          with bad ps obtain c ps'' where ps': "ps' = c # ps''" and c: "\<not> IsNumber c"
            by (cases ps') (auto simp: numeral_2_eq_2)
          from free ps ps' have "\<not> IsFunction c" by simp
          with c show ?thesis
            using scan_not_number [of c 2 cv ps''
                "v\<lparr>out_maxtime := t,
                   out_maxmemfrac := (if double_le0 f then maxmemfrac_default else f)\<rparr>"]
            by (simp add: ValidateArguments_def arg_at_def a0 le ps b ps' numeral_2_eq_2)
        qed
      qed
    qed
  qed
  then show ?thesis
    using ValidateArguments_positional [of cv args v] pos
    by (simp split: prod.splits)
qed

lemma valid_rc:
  assumes "\<not> validation_failure args"
  shows "fst (ValidateArguments cv (positional args) v) = 0
    \<and> callbackPosition (snd (ValidateArguments cv (positional args) v)) = callbackPosition v
    \<and> message (snd (ValidateArguments cv (positional args) v)) = message v"
  using valid_shape [OF assms]
  by (auto simp: ValidateArguments_shape1 ValidateArguments_shape2 ValidateArguments_shape3)

section \<open>The entry point and the request\<close>

lemma double_gt0_not_le0: "double_gt0 t \<Longrightarrow> \<not> double_le0 t"
  by (cases t) simp_all

lemma Params_failure:
  assumes "validation_failure args"
  shows "Params e args =
    (Undefined,
     [ThrowException (Exception_TypeError (message (snd (ValidateArguments (oor e) args locals))))])"
  using validation_failure_rc [OF assms, of "oor e" locals]
  by (cases "ValidateArguments (oor e) args locals") (simp add: Params_def)

lemma Params_valid:
  assumes "\<not> validation_failure args"
  shows "Params e args =
    (let v' = snd (ValidateArguments (oor e) (positional args) locals) in
     if length (positional args) < length args
     then (Undefined,
           [uv_queue_work
              \<lparr>callback = args ! length (positional args), result = 0,
               maxmem = out_maxmem v', maxmemfrac = out_maxmemfrac v',
               maxtime = out_maxtime v', N = 0, r = 0, p = 0\<rparr>])
     else ParamsSync e (out_maxmem v') (out_maxmemfrac v') (out_maxtime v'))"
proof -
  obtain rc v' where va: "ValidateArguments (oor e) (positional args) locals = (rc, v')"
    by (cases "ValidateArguments (oor e) (positional args) locals")
  from valid_rc [OF assms, of "oor e" locals] va
  have rc: "rc = 0" and cb: "callbackPosition v' = - 1"
    by (simp_all add: locals_def)
  show ?thesis
    using ValidateArguments_positional [of "oor e" args locals] va rc cb
    by (simp add: Params_def arg_at_def Let_def)
qed

lemma request_failure:
  assumes "validation_failure args"
  shows "request e args = Params e args"
  by (simp add: request_def Params_failure [OF assms])


text \<open>
  Claim C4. Every validation failure (an empty argument list, a callable first, a value
  that is not a number at index 0, 1 or 2 before any callable, a maxtime \<^verbatim>\<open><= 0\<close>) ends
  the call with one exception thrown into the caller: over the whole life of the request
  the resolver is not called, no work is queued and no callback is called.
\<close>

theorem validation_failure_throws:
  assumes "validation_failure args"
  shows "\<exists>msg. Params e args = (Undefined, [ThrowException (Exception_TypeError msg)])
           \<and> request e args = (Undefined, [ThrowException (Exception_TypeError msg)])
           \<and> resolver_calls (snd (request e args)) = []
           \<and> callback_calls (snd (request e args)) = []"
  using Params_failure [OF assms, of e] request_failure [OF assms, of e]
  by simp

theorem validation_failure_throws_witness:
  "validation_failure [Number (Finite 0), Function 0]
   \<and> request (stub_env 0 None) [Number (Finite 0), Function 0] =
       (Undefined, [ThrowException (Exception_TypeError ''maxtime must be greater than 0'')])
   \<and> validation_failure [Number (Finite 5), String_New ''x'', Function 0]
   \<and> request (stub_env 0 None) [Number (Finite 5), String_New ''x'', Function 0] =
       (Undefined, [ThrowException (Exception_TypeError ''max_memfrac argument must be a number'')])
   \<and> validation_failure []
   \<and> request (stub_env 0 None) [] =
       (Undefined, [ThrowException (Exception_TypeError
          ''Wrong number of arguments: At least one argument is needed - the maxtime'')])"
  using validation_failure_throws [of "[Number (Finite 0), Function 0]" "stub_env 0 None"]
  by (simp add: validation_failure_def positional_def request_def Params_def
      ValidateArguments_def arg_at_def locals_def stub_env_def)

text \<open>
  Claim C2. The completion step calls the stored callback exactly once: with the one
  argument \<^verbatim>\<open>Error(ScryptErrorDescr(result))\<close> when the result code is not zero, with
  \<^verbatim>\<open>(null, {N, r, p})\<close> otherwise. For a request that passes validation and has a callable
  after the first position, the callback called is that callable, and the arguments are
  built from what the resolver returned for the validated parameters.
\<close>

theorem ParamsAsyncAfter_calls_once:
  "callback_calls (ParamsAsyncAfter e baton) =
     [(callback baton,
       if result baton \<noteq> 0 then [Exception_Error (ScryptErrorDescr e (result baton))]
       else [Null, Object [(''N'', Integer_New (Int32 (N baton))),
                           (''r'', Integer_New (UInt32 (r baton))),
                           (''p'', Integer_New (UInt32 (p baton)))]])]
   \<and> (\<not> validation_failure args \<and> length (positional args) < length args \<longrightarrow>
        (\<exists>mm mf mt.
           Params e args =
             (Undefined,
              [uv_queue_work
                 \<lparr>callback = args ! length (positional args), result = 0, maxmem = mm,
                  maxmemfrac = mf, maxtime = mt, N = 0, r = 0, p = 0\<rparr>])
           \<and> callback_calls (snd (request e args)) =
               [(args ! length (positional args),
                 case pickparams e mm mf mt of
                   (res, n, r', p') \<Rightarrow>
                     if res \<noteq> 0 then [Exception_Error (ScryptErrorDescr e res)]
                     else [Null, Object [(''N'', Integer_New (Int32 n)),
                                         (''r'', Integer_New (UInt32 r')),
                                         (''p'', Integer_New (UInt32 p'))]])]))"
proof (intro conjI impI)
  show "callback_calls (ParamsAsyncAfter e baton) =
     [(callback baton,
       if result baton \<noteq> 0 then [Exception_Error (ScryptErrorDescr e (result baton))]
       else [Null, Object [(''N'', Integer_New (Int32 (N baton))),
                           (''r'', Integer_New (UInt32 (r baton))),
                           (''p'', Integer_New (UInt32 (p baton)))]])]"
    by (simp add: ParamsAsyncAfter_def call_callback_def createJSONObject_def
        split: option.splits)
next
  assume a: "\<not> validation_failure args \<and> length (positional args) < length args"
  then show "\<exists>mm mf mt.
           Params e args =
             (Undefined,
              [uv_queue_work
                 \<lparr>callback = args ! length (positional args), result = 0, maxmem = mm,
                  maxmemfrac = mf, maxtime = mt, N = 0, r = 0, p = 0\<rparr>])
           \<and> callback_calls (snd (request e args)) =
               [(args ! length (positional args),
                 case pickparams e mm mf mt of
                   (res, n, r', p') \<Rightarrow>
                     if res \<noteq> 0 then [Exception_Error (ScryptErrorDescr e res)]
                     else [Null, Object [(''N'', Integer_New (Int32 n)),
                                         (''r'', Integer_New (UInt32 r')),
                                         (''p'', Integer_New (UInt32 p'))]])]"
    using Params_valid [of args e]
    by (auto simp: Let_def request_def ParamsWork_def ParamsAsyncAfter_def call_callback_def
        createJSONObject_def split: prod.splits option.splits)
qed

theorem ParamsAsyncAfter_calls_once_witness:
  "\<not> validation_failure [Number (Finite 5), Number (Finite (1 / 4)), Number (Finite 1048576), Function 7]
   \<and> length (positional [Number (Finite 5), Number (Finite (1 / 4)), Number (Finite 1048576), Function 7])
       < length [Number (Finite 5), Number (Finite (1 / 4)), Number (Finite 1048576), Function 7]
   \<and> callback_calls (snd (request (stub_env 1 None)
         [Number (Finite 5), Number (Finite (1 / 4)), Number (Finite 1048576), Function 7])) =
       [(Function 7, [Exception_Error ''getrlimit or sysctl(hw.usermem) failed''])]
   \<and> callback_calls (snd (request (stub_env 0 None)
         [Number (Finite 5), Number (Finite (1 / 4)), Number (Finite 1048576), Function 7])) =
       [(Function 7, [Null, Object [(''N'', Integer_New (Int32 16384)),
                                    (''r'', Integer_New (UInt32 8)),
                                    (''p'', Integer_New (UInt32 1))]])]"
  using ParamsAsyncAfter_calls_once
    [of "stub_env 1 None"
        "\<lparr>callback = Function 7, result = 1, maxmem = 1048576, maxmemfrac = Finite (1 / 4),
          maxtime = Finite 5, N = 0, r = 0, p = 0\<rparr>"
        "[Number (Finite 5), Number (Finite (1 / 4)), Number (Finite 1048576), Function 7]"]
  by (simp add: validation_failure_def positional_def request_def Params_def
      ValidateArguments_def arg_at_def locals_def stub_env_def ParamsWork_def
      ParamsAsyncAfter_def call_callback_def createJSONObject_def double_to_int_def
      trunc_def Let_def maxmem_default_def maxmemfrac_default_def)















lemma numeric_valid:
  assumes "double_gt0 t" "\<forall>a \<in> set (take 2 rest). IsNumber a" "\<forall>a \<in> set rest. \<not> IsFunction a"
  shows "\<not> validation_failure (Number t # rest)" "positional (Number t # rest) = Number t # rest"
proof -
  show pos: "positional (Number t # rest) = Number t # rest"
    using assms(3) by (simp add: positional_def)
  have "take 3 (Number t # rest) = Number t # take 2 rest"
    by (simp add: numeral_3_eq_3 numeral_2_eq_2)
  then show "\<not> validation_failure (Number t # rest)"
    using assms(1,2) double_gt0_not_le0 [of t]
    by (simp add: validation_failure_def pos)
qed

text \<open>
  Claim C6. After three numbers, the first greater than zero, further arguments that are
  not callables change nothing: validation succeeds with the callback position untouched,
  and the call is the synchronous call on the first three arguments.
\<close>

theorem trailing_arguments_ignored:
  assumes "double_gt0 t" and "\<forall>a \<in> set extra. \<not> IsFunction a"
  shows "\<not> validation_failure (Number t # Number f # Number m # extra)
     \<and> ValidateArguments cv (Number t # Number f # Number m # extra) v =
         ValidateArguments cv [Number t, Number f, Number m] v
     \<and> fst (ValidateArguments cv (Number t # Number f # Number m # extra) v) = 0
     \<and> callbackPosition (snd (ValidateArguments cv (Number t # Number f # Number m # extra) v)) =
         callbackPosition v
     \<and> Params e (Number t # Number f # Number m # extra) = Params e [Number t, Number f, Number m]
     \<and> request e (Number t # Number f # Number m # extra) =
         request e [Number t, Number f, Number m]
     \<and> (\<exists>mm mf. Params e (Number t # Number f # Number m # extra) = ParamsSync e mm mf t)"
proof -
  let ?args = "Number t # Number f # Number m # extra"
  note le = double_gt0_not_le0 [OF assms(1)]
  have valid: "\<not> validation_failure ?args" and pos: "positional ?args = ?args"
    using numeric_valid [of t "Number f # Number m # extra"] assms
    by (simp_all add: numeral_2_eq_2)
  have valid3: "\<not> validation_failure [Number t, Number f, Number m]"
    and pos3: "positional [Number t, Number f, Number m] = [Number t, Number f, Number m]"
    using numeric_valid [of t "[Number f, Number m]"] assms(1)
    by (simp_all add: numeral_2_eq_2)
  have va: "ValidateArguments cv ?args v = ValidateArguments cv [Number t, Number f, Number m] v"
    for cv v
    using ValidateArguments_shape3 [OF le assms(2)] ValidateArguments_shape3 [OF le, of "[]"]
    by simp
  have par: "Params e ?args = Params e [Number t, Number f, Number m]"
    using Params_valid [OF valid, of e] Params_valid [OF valid3, of e] pos pos3 va
    by (simp add: Let_def)
  have sync: "Params e ?args =
      ParamsSync e (out_maxmem (snd (ValidateArguments (oor e) ?args locals)))
        (out_maxmemfrac (snd (ValidateArguments (oor e) ?args locals))) t"
    using Params_valid [OF valid, of e] pos ValidateArguments_shape3 [OF le assms(2)]
    by (simp add: Let_def)
  have ex: "\<exists>mm mf. Params e ?args = ParamsSync e mm mf t"
    using sync by blast
  have req: "request e ?args = request e [Number t, Number f, Number m]"
    by (simp add: request_def par)
  have rc: "fst (ValidateArguments cv ?args v) = 0"
    and cb: "callbackPosition (snd (ValidateArguments cv ?args v)) = callbackPosition v"
    by (simp_all add: ValidateArguments_shape3 [OF le assms(2)])
  from valid va [of cv v] rc cb par req ex show ?thesis
    by (intro conjI)
qed

theorem trailing_arguments_ignored_witness:
  "double_gt0 (Finite 5)
   \<and> \<not> IsFunction (Number (Finite 42))
   \<and> request (stub_env 0 None)
         [Number (Finite 5), Number (Finite (1 / 4)), Number (Finite 1048576), Number (Finite 42)] =
       (Object [(''N'', Integer_New (Int32 16384)), (''r'', Integer_New (UInt32 8)),
                (''p'', Integer_New (UInt32 1))],
        [Pickparams 1048576 (Finite (1 / 4)) (Finite 5)])"
  using trailing_arguments_ignored
    [of "Finite 5" "[Number (Finite 42)]" "Finite (1 / 4)" "Finite 1048576" x86_cvttsd2si
        locals "stub_env 0 None"]
  by (simp add: request_def Params_def ValidateArguments_def ParamsSync_def
      createJSONObject_def arg_at_def locals_def stub_env_def maxmem_default_def
      maxmemfrac_default_def double_to_int_def trunc_def)

text \<open>
  Claim C7. On every path of the completion step (resolver error or success, callback
  raising or not) the callback handle is disposed and the baton and the work request are
  deleted right after the call of the callback; an exception the callback raised is
  passed to \<^verbatim>\<open>node::FatalException\<close> before that.
\<close>

theorem completion_releases:
  "(HasCaught e (callback baton)
       (if result baton \<noteq> 0 then [Exception_Error (ScryptErrorDescr e (result baton))]
        else [Null, createJSONObject (N baton) (r baton) (p baton)]) = None \<longrightarrow>
     ParamsAsyncAfter e baton =
       [Call (callback baton)
          (if result baton \<noteq> 0 then [Exception_Error (ScryptErrorDescr e (result baton))]
           else [Null, createJSONObject (N baton) (r baton) (p baton)]),
        Dispose (callback baton), delete_baton, delete_req])
   \<and> (\<forall>ex. HasCaught e (callback baton)
       (if result baton \<noteq> 0 then [Exception_Error (ScryptErrorDescr e (result baton))]
        else [Null, createJSONObject (N baton) (r baton) (p baton)]) = Some ex \<longrightarrow>
     ParamsAsyncAfter e baton =
       [Call (callback baton)
          (if result baton \<noteq> 0 then [Exception_Error (ScryptErrorDescr e (result baton))]
           else [Null, createJSONObject (N baton) (r baton) (p baton)]),
        FatalException ex, Dispose (callback baton), delete_baton, delete_req])"
  by (simp add: ParamsAsyncAfter_def call_callback_def)

theorem completion_releases_witness:
  "HasCaught (stub_env 1 (Some (Exception_Error ''handler failed''))) (Function 7)
       [Exception_Error ''getrlimit or sysctl(hw.usermem) failed''] =
     Some (Exception_Error ''handler failed'')
   \<and> ParamsAsyncAfter (stub_env 1 (Some (Exception_Error ''handler failed'')))
       \<lparr>callback = Function 7, result = 1, maxmem = 0, maxmemfrac = Finite (1 / 2),
        maxtime = Finite 5, N = 0, r = 0, p = 0\<rparr> =
     [Call (Function 7) [Exception_Error ''getrlimit or sysctl(hw.usermem) failed''],
      FatalException (Exception_Error ''handler failed''),
      Dispose (Function 7), delete_baton, delete_req]
   \<and> HasCaught (stub_env 0 None) (Function 7) [Null, createJSONObject 16384 8 1] = None
   \<and> ParamsAsyncAfter (stub_env 0 None)
       \<lparr>callback = Function 7, result = 0, maxmem = 0, maxmemfrac = Finite (1 / 2),
        maxtime = Finite 5, N = 16384, r = 8, p = 1\<rparr> =
     [Call (Function 7) [Null, createJSONObject 16384 8 1],
      Dispose (Function 7), delete_baton, delete_req]"
  using completion_releases
    [of "stub_env 1 (Some (Exception_Error ''handler failed''))"
        "\<lparr>callback = Function 7, result = 1, maxmem = 0, maxmemfrac = Finite (1 / 2),
          maxtime = Finite 5, N = 0, r = 0, p = 0\<rparr>"]
    completion_releases
    [of "stub_env 0 None"
        "\<lparr>callback = Function 7, result = 0, maxmem = 0, maxmemfrac = Finite (1 / 2),
          maxtime = Finite 5, N = 16384, r = 8, p = 1\<rparr>"]
  by (simp add: stub_env_def)

section \<open>Defaults and the narrowing of maxmem\<close>

lemma uint_scast_nonneg:
  fixes w :: "32 word"
  assumes "\<not> sint w < 0"
  shows "uint (scast w :: 64 word) = sint w"
proof -
  have "sint w < 2 ^ 31" using sint_lt [of w] by simp
  with assms have small: "sint w mod 2 ^ 64 = sint w" by simp
  have "uint (scast w :: 64 word) = uint (word_of_int (sint w) :: 64 word)"
    by (simp only: scast_eq)
  also have "\<dots> = sint w mod 2 ^ LENGTH(64)"
    by (simp only: uint_word_of_int)
  also have "\<dots> = sint w"
    using small by simp
  finally show ?thesis .
qed

lemma narrowed_bound:
  fixes w :: "32 word"
  shows "uint (if sint w < 0 then maxmem_default else (scast w :: 64 word)) < 2 ^ 31"
  using sint_lt [of w] by (simp add: uint_scast_nonneg maxmem_default_def)

lemma sint_trunc:
  assumes "int_representable (Finite q)"
  shows "sint (double_to_int cv (Finite q)) = trunc q"
proof -
  from assms have "- (2 ^ 31) \<le> trunc q" "trunc q < 2 ^ 31" by simp_all
  then have "sint (word_of_int (trunc q) :: 32 word) = trunc q"
    by (simp add: int_word_sint)
  with assms show ?thesis by (simp add: double_to_int_def)
qed

lemma narrowed_representable:
  assumes "int_representable (Finite q)"
  shows "uint (if sint (double_to_int cv (Finite q)) < 0 then maxmem_default
               else (scast (double_to_int cv (Finite q)) :: 64 word)) =
         (if trunc q < 0 then 0 else trunc q)"
  using sint_trunc [OF assms, of cv]
  by (simp add: uint_scast_nonneg maxmem_default_def)

lemma trunc_of_int: "trunc (of_int k) = k"
  by (simp add: trunc_def)


lemma request_resolver_calls:
  assumes "\<not> validation_failure args"
  shows "resolver_calls (snd (request e args)) =
    [(out_maxmem (snd (ValidateArguments (oor e) (positional args) locals)),
      out_maxmemfrac (snd (ValidateArguments (oor e) (positional args) locals)),
      out_maxtime (snd (ValidateArguments (oor e) (positional args) locals)))]"
  using Params_valid [OF assms, of e]
  by (auto simp: Let_def request_def ParamsSync_def ParamsWork_def ParamsAsyncAfter_def
      call_callback_def split: prod.splits option.splits)



lemma narrowed_exact:
  "Finite (of_int (uint (if sint (double_to_int cv d) < 0 then maxmem_default
                         else (scast (double_to_int cv d) :: 64 word)))) = d
   \<longleftrightarrow> (\<exists>k. 0 \<le> k \<and> k < 2 ^ 31 \<and> d = Finite (of_int k))"
proof -
  define mm :: "64 word" where "mm = (if sint (double_to_int cv d) < 0
    then maxmem_default else scast (double_to_int cv d))"
  have "Finite (of_int (uint mm)) = d \<longleftrightarrow>
    (\<exists>k. 0 \<le> k \<and> k < 2 ^ 31 \<and> d = Finite (of_int k))"
  proof
    assume "Finite (of_int (uint mm)) = d"
    then have "d = Finite (of_int (uint mm))" by simp
    moreover have "uint mm < 2 ^ 31"
      unfolding mm_def by (rule narrowed_bound)
    moreover have "0 \<le> uint mm" by simp
    ultimately show "\<exists>k. 0 \<le> k \<and> k < 2 ^ 31 \<and> d = Finite (of_int k)" by blast
  next
    assume "\<exists>k. 0 \<le> k \<and> k < 2 ^ 31 \<and> d = Finite (of_int k)"
    then obtain k where k: "0 \<le> k" "k < 2 ^ 31" "d = Finite (of_int k)" by blast
    then have rep: "int_representable (Finite (of_int k))"
      by (simp add: trunc_of_int)
    have "uint mm = (if trunc (of_int k) < 0 then 0 else trunc (of_int k))"
      unfolding mm_def k(3) by (rule narrowed_representable [OF rep])
    with k show "Finite (of_int (uint mm)) = d"
      by (simp add: trunc_of_int)
  qed
  then show ?thesis by (simp only: mm_def)
qed

text \<open>
  Claim C1. For a first argument that is a number greater than zero, followed by numbers
  at the next two positions as far as they are present, and no callable: the call is
  complete when it returns, and the resolver is called once, with the maxtime supplied,
  with the maxmemfrac supplied (0.5 when there is none or it is \<^verbatim>\<open><= 0\<close>) and with the
  maxmem supplied as it comes out of the conversion to \<^verbatim>\<open>int\<close> (0 when there is none or
  the \<^verbatim>\<open>int\<close> is negative). The call returns the object built from the resolver's triple
  or, when the resolver's code is not zero, throws the type error with the message
  \<^verbatim>\<open>ScryptErrorDescr\<close> gives for that code.
\<close>

theorem sync_returns_resolver_triple:
  assumes "double_gt0 t"
    and "\<forall>a \<in> set (take 2 rest). IsNumber a"
    and "\<forall>a \<in> set rest. \<not> IsFunction a"
  shows "\<exists>mm mf.
     (rest = [] \<longrightarrow> mf = Finite (1 / 2) \<and> mm = 0)
     \<and> (\<forall>f. rest = [Number f] \<longrightarrow>
            mf = (if double_le0 f then Finite (1 / 2) else f) \<and> mm = 0)
     \<and> (\<forall>f m extra. rest = Number f # Number m # extra \<longrightarrow>
            mf = (if double_le0 f then Finite (1 / 2) else f)
            \<and> mm = (if sint (double_to_int (oor e) m) < 0 then 0
                    else scast (double_to_int (oor e) m))
            \<and> uint mm < 2 ^ 31
            \<and> (\<forall>q. m = Finite q \<and> int_representable m \<longrightarrow>
                   uint mm = (if trunc q < 0 then 0 else trunc q)))
     \<and> ValidateArguments (oor e) (Number t # rest) locals =
         (0, locals\<lparr>out_maxmem := mm, out_maxmemfrac := mf, out_maxtime := t\<rparr>)
     \<and> request e (Number t # rest) = Params e (Number t # rest)
     \<and> Params e (Number t # rest) =
         (case pickparams e mm mf t of
            (res, n, r', p') \<Rightarrow>
              if res = 0
              then (Object [(''N'', Integer_New (Int32 n)), (''r'', Integer_New (UInt32 r')),
                            (''p'', Integer_New (UInt32 p'))],
                    [Pickparams mm mf t])
              else (Undefined,
                    [Pickparams mm mf t,
                     ThrowException (Exception_TypeError (ScryptErrorDescr e res))]))"
proof -
  let ?args = "Number t # rest"
  note valid = numeric_valid [OF assms]
  note le = double_gt0_not_le0 [OF assms(1)]
  obtain v' where va: "ValidateArguments (oor e) ?args locals = (0, v')"
    and cb: "callbackPosition v' = callbackPosition locals" and msg: "message v' = message locals"
    using valid_rc [OF valid(1), of "oor e" locals] valid(2)
    by (cases "ValidateArguments (oor e) ?args locals") auto
  have t: "out_maxtime v' = t"
    using valid_shape [OF valid(1)] va valid(2) le
    by (auto simp: ValidateArguments_shape1 ValidateArguments_shape2 ValidateArguments_shape3)
  have v': "v' = locals\<lparr>out_maxmem := out_maxmem v', out_maxmemfrac := out_maxmemfrac v',
                         out_maxtime := t\<rparr>"
    using cb msg t by (cases v') (simp add: locals_def)
  have par: "Params e ?args = ParamsSync e (out_maxmem v') (out_maxmemfrac v') t"
    using Params_valid [OF valid(1), of e] va valid(2) t by (simp add: Let_def)
  have req: "request e ?args = Params e ?args"
    by (simp add: request_def par ParamsSync_def split: prod.splits)
  have one: "out_maxmemfrac v' = Finite (1 / 2) \<and> out_maxmem v' = 0" if "rest = []"
    using va that ValidateArguments_shape1 [OF le, of "oor e" locals]
    by (auto simp: locals_def maxmem_default_def maxmemfrac_default_def)
  have two: "out_maxmemfrac v' = (if double_le0 f then Finite (1 / 2) else f)
      \<and> out_maxmem v' = 0" if "rest = [Number f]" for f
    using va that ValidateArguments_shape2 [OF le, of "oor e" f locals]
    by (auto simp: locals_def maxmem_default_def maxmemfrac_default_def)
  have three: "out_maxmemfrac v' = (if double_le0 f then Finite (1 / 2) else f)
      \<and> out_maxmem v' = (if sint (double_to_int (oor e) m) < 0 then maxmem_default
                          else scast (double_to_int (oor e) m))"
    if "rest = Number f # Number m # extra" for f m extra
  proof -
    from that assms(3) have free: "\<forall>a \<in> set extra. \<not> IsFunction a" by simp
    have "v' = locals\<lparr>out_maxtime := t,
        out_maxmemfrac := (if double_le0 f then maxmemfrac_default else f),
        out_maxmem := (if sint (double_to_int (oor e) m) < 0 then maxmem_default
                       else scast (double_to_int (oor e) m))\<rparr>"
      using va that ValidateArguments_shape3 [OF le free, of "oor e" f m locals] by simp
    then show ?thesis
      by (simp add: maxmemfrac_default_def)
  qed
  have three0: "out_maxmem v' = (if sint (double_to_int (oor e) m) < 0 then 0
                          else scast (double_to_int (oor e) m))"
    if "rest = Number f # Number m # extra" for f m extra
    using three [OF that] by (simp add: maxmem_default_def)
  have bound: "uint (out_maxmem v') < 2 ^ 31"
    if "rest = Number f # Number m # extra" for f m extra
  proof -
    have "uint (if sint (double_to_int (oor e) m) < 0 then maxmem_default
                else (scast (double_to_int (oor e) m) :: 64 word)) < 2 ^ 31"
      by (rule narrowed_bound)
    with three [OF that] show ?thesis by (simp only:)
  qed
  have exact: "uint (out_maxmem v') = (if trunc q < 0 then 0 else trunc q)"
    if "rest = Number f # Number (Finite q) # extra" "int_representable (Finite q)"
    for f extra q
  proof -
    have "uint (if sint (double_to_int (oor e) (Finite q)) < 0 then maxmem_default
                else (scast (double_to_int (oor e) (Finite q)) :: 64 word)) =
          (if trunc q < 0 then 0 else trunc q)"
      by (rule narrowed_representable [OF that(2)])
    with three [OF that(1)] show ?thesis by (simp only:)
  qed
  have A: "rest = [] \<longrightarrow> out_maxmemfrac v' = Finite (1 / 2) \<and> out_maxmem v' = 0"
    using one by (rule impI)
  have B: "\<forall>f. rest = [Number f] \<longrightarrow>
      out_maxmemfrac v' = (if double_le0 f then Finite (1 / 2) else f) \<and> out_maxmem v' = 0"
    using two by (intro allI impI)
  have C: "\<forall>f m extra. rest = Number f # Number m # extra \<longrightarrow>
            out_maxmemfrac v' = (if double_le0 f then Finite (1 / 2) else f)
            \<and> out_maxmem v' = (if sint (double_to_int (oor e) m) < 0 then 0
                    else scast (double_to_int (oor e) m))
            \<and> uint (out_maxmem v') < 2 ^ 31
            \<and> (\<forall>q. m = Finite q \<and> int_representable m \<longrightarrow>
                   uint (out_maxmem v') = (if trunc q < 0 then 0 else trunc q))"
  proof (intro allI impI conjI)
    fix f m extra
    assume r: "rest = Number f # Number m # extra"
    show "out_maxmemfrac v' = (if double_le0 f then Finite (1 / 2) else f)"
      using three [OF r] by (rule conjunct1)
    show "out_maxmem v' = (if sint (double_to_int (oor e) m) < 0 then 0
                    else scast (double_to_int (oor e) m))"
      by (rule three0 [OF r])
    show "uint (out_maxmem v') < 2 ^ 31"
      by (rule bound [OF r])
    fix q
    assume "m = Finite q \<and> int_representable m"
    then have "rest = Number f # Number (Finite q) # extra" "int_representable (Finite q)"
      using r by auto
    then show "uint (out_maxmem v') = (if trunc q < 0 then 0 else trunc q)"
      by (rule exact)
  qed
  have D: "ValidateArguments (oor e) ?args locals =
      (0, locals\<lparr>out_maxmem := out_maxmem v', out_maxmemfrac := out_maxmemfrac v',
                  out_maxtime := t\<rparr>)"
    using va v' by simp
  have E: "Params e ?args =
         (case pickparams e (out_maxmem v') (out_maxmemfrac v') t of
            (res, n, r', p') \<Rightarrow>
              if res = 0
              then (Object [(''N'', Integer_New (Int32 n)), (''r'', Integer_New (UInt32 r')),
                            (''p'', Integer_New (UInt32 p'))],
                    [Pickparams (out_maxmem v') (out_maxmemfrac v') t])
              else (Undefined,
                    [Pickparams (out_maxmem v') (out_maxmemfrac v') t,
                     ThrowException (Exception_TypeError (ScryptErrorDescr e res))]))"
    by (simp add: par ParamsSync_def createJSONObject_def split: prod.splits)
  from A B C D req E show ?thesis
    by (intro exI [of _ "out_maxmem v'"] exI [of _ "out_maxmemfrac v'"] conjI)
qed

theorem sync_returns_resolver_triple_witness:
  "double_gt0 (Finite 5)
   \<and> IsNumber (Number (Finite (1 / 4))) \<and> IsNumber (Number (Finite 1048576))
   \<and> \<not> IsFunction (Number (Finite (1 / 4))) \<and> \<not> IsFunction (Number (Finite 1048576))
   \<and> request (stub_env 0 None)
         [Number (Finite 5), Number (Finite (1 / 4)), Number (Finite 1048576)] =
       (Object [(''N'', Integer_New (Int32 16384)), (''r'', Integer_New (UInt32 8)),
                (''p'', Integer_New (UInt32 1))],
        [Pickparams 1048576 (Finite (1 / 4)) (Finite 5)])
   \<and> request (stub_env 1 None)
         [Number (Finite 5), Number (Finite (1 / 4)), Number (Finite 1048576)] =
       (Undefined,
        [Pickparams 1048576 (Finite (1 / 4)) (Finite 5),
         ThrowException (Exception_TypeError ''getrlimit or sysctl(hw.usermem) failed'')])
   \<and> request (stub_env 0 None) [Number (Finite 5), Number (Finite (- 3))] =
       (Object [(''N'', Integer_New (Int32 16384)), (''r'', Integer_New (UInt32 8)),
                (''p'', Integer_New (UInt32 1))],
        [Pickparams 0 (Finite (1 / 2)) (Finite 5)])
   \<and> request (stub_env 0 None) [Number (Finite 5)] =
       (Object [(''N'', Integer_New (Int32 16384)), (''r'', Integer_New (UInt32 8)),
                (''p'', Integer_New (UInt32 1))],
        [Pickparams 0 (Finite (1 / 2)) (Finite 5)])"
proof -
  have run: "double_gt0 (Finite 5)
   \<and> IsNumber (Number (Finite (1 / 4))) \<and> IsNumber (Number (Finite 1048576))
   \<and> \<not> IsFunction (Number (Finite (1 / 4))) \<and> \<not> IsFunction (Number (Finite 1048576))
   \<and> request (stub_env 0 None)
         [Number (Finite 5), Number (Finite (1 / 4)), Number (Finite 1048576)] =
       (Object [(''N'', Integer_New (Int32 16384)), (''r'', Integer_New (UInt32 8)),
                (''p'', Integer_New (UInt32 1))],
        [Pickparams 1048576 (Finite (1 / 4)) (Finite 5)])
   \<and> request (stub_env 1 None)
         [Number (Finite 5), Number (Finite (1 / 4)), Number (Finite 1048576)] =
       (Undefined,
        [Pickparams 1048576 (Finite (1 / 4)) (Finite 5),
         ThrowException (Exception_TypeError ''getrlimit or sysctl(hw.usermem) failed'')])
   \<and> request (stub_env 0 None) [Number (Finite 5), Number (Finite (- 3))] =
       (Object [(''N'', Integer_New (Int32 16384)), (''r'', Integer_New (UInt32 8)),
                (''p'', Integer_New (UInt32 1))],
        [Pickparams 0 (Finite (1 / 2)) (Finite 5)])
   \<and> request (stub_env 0 None) [Number (Finite 5)] =
       (Object [(''N'', Integer_New (Int32 16384)), (''r'', Integer_New (UInt32 8)),
                (''p'', Integer_New (UInt32 1))],
        [Pickparams 0 (Finite (1 / 2)) (Finite 5)])"
    by code_simp
  have gt: "double_gt0 (Finite 5)" by simp
  have nums: "\<forall>a \<in> set (take 2 [Number (Finite (1 / 4)), Number (Finite 1048576)]). IsNumber a"
    by simp
  have free: "\<forall>a \<in> set [Number (Finite (1 / 4)), Number (Finite 1048576)]. \<not> IsFunction a"
    by simp
  from sync_returns_resolver_triple [OF gt nums free, of "stub_env 0 None"]
  show ?thesis by - (rule run)
qed



text \<open>
  Claim C10. The maxmem that reaches the resolver has passed through \<^verbatim>\<open>int\<close>: it is
  always below \<^term>\<open>(2::int) ^ 31\<close>; for a value whose truncation is an \<^verbatim>\<open>int\<close> it is
  that truncation (or 0 when negative); and it equals the supplied value exactly when
  that value is a whole number from 0 to \<^term>\<open>(2::int) ^ 31 - 1\<close>. This holds whatever the
  platform's out-of-range conversion yields.
\<close>

theorem maxmem_narrowed_through_int:
  assumes "\<not> validation_failure args"
    and "2 < length (positional args)"
    and "positional args ! 2 = Number d"
  shows "\<exists>mm mf mt. resolver_calls (snd (request e args)) = [(mm, mf, mt)]
     \<and> uint mm < 2 ^ 31
     \<and> (\<forall>q. d = Finite q \<and> int_representable d \<longrightarrow>
            uint mm = (if trunc q < 0 then 0 else trunc q))
     \<and> (Finite (of_int (uint mm)) = d \<longleftrightarrow>
            (\<exists>k. 0 \<le> k \<and> k < 2 ^ 31 \<and> d = Finite (of_int k)))"
proof -
  let ?v = "snd (ValidateArguments (oor e) (positional args) locals)"
  let ?mm = "if sint (double_to_int (oor e) d) < 0 then maxmem_default
             else (scast (double_to_int (oor e) d) :: 64 word)"
  have calls: "resolver_calls (snd (request e args)) =
      [(out_maxmem ?v, out_maxmemfrac ?v, out_maxtime ?v)]"
    by (rule request_resolver_calls [OF assms(1)])
  from valid_shape [OF assms(1)] assms(2,3) obtain t f extra
    where t: "\<not> double_le0 t"
      and shape: "positional args = Number t # Number f # Number d # extra"
      and free: "\<forall>a \<in> set extra. \<not> IsFunction a"
    by auto
  have mm: "out_maxmem ?v = ?mm"
    by (simp add: shape ValidateArguments_shape3 [OF t free])
  have "uint ?mm < 2 ^ 31" by (rule narrowed_bound)
  moreover have "\<forall>q. d = Finite q \<and> int_representable d \<longrightarrow>
      uint ?mm = (if trunc q < 0 then 0 else trunc q)"
    using narrowed_representable [of _ "oor e"] by blast
  moreover have "Finite (of_int (uint ?mm)) = d \<longleftrightarrow>
      (\<exists>k. 0 \<le> k \<and> k < 2 ^ 31 \<and> d = Finite (of_int k))"
    by (rule narrowed_exact)
  ultimately show ?thesis
    using calls unfolding mm by blast
qed



theorem maxmem_narrowed_through_int_witness:
  "\<not> validation_failure [Number (Finite 5), Number (Finite (1 / 4)), Number (Finite (11 / 2))]
   \<and> 2 < length (positional [Number (Finite 5), Number (Finite (1 / 4)), Number (Finite (11 / 2))])
   \<and> positional [Number (Finite 5), Number (Finite (1 / 4)), Number (Finite (11 / 2))] ! 2 =
       Number (Finite (11 / 2))
   \<and> resolver_calls (snd (request (stub_env 0 None)
         [Number (Finite 5), Number (Finite (1 / 4)), Number (Finite (11 / 2))])) =
       [(5, Finite (1 / 4), Finite 5)]
   \<and> resolver_calls (snd (request (stub_env 0 None)
         [Number (Finite 5), Number (Finite (1 / 4)), Number (Finite (2 ^ 31))])) =
       [(0, Finite (1 / 4), Finite 5)]"
proof -
  have run: "\<not> validation_failure [Number (Finite 5), Number (Finite (1 / 4)), Number (Finite (11 / 2))]
   \<and> 2 < length (positional [Number (Finite 5), Number (Finite (1 / 4)), Number (Finite (11 / 2))])
   \<and> positional [Number (Finite 5), Number (Finite (1 / 4)), Number (Finite (11 / 2))] ! 2 =
       Number (Finite (11 / 2))
   \<and> resolver_calls (snd (request (stub_env 0 None)
         [Number (Finite 5), Number (Finite (1 / 4)), Number (Finite (11 / 2))])) =
       [(5, Finite (1 / 4), Finite 5)]
   \<and> resolver_calls (snd (request (stub_env 0 None)
         [Number (Finite 5), Number (Finite (1 / 4)), Number (Finite (2 ^ 31))])) =
       [(0, Finite (1 / 4), Finite 5)]"
    by code_simp
  from maxmem_narrowed_through_int
    [of "[Number (Finite 5), Number (Finite (1 / 4)), Number (Finite (11 / 2))]"
        "Finite (11 / 2)" "stub_env 0 None"]
    run
  show ?thesis by blast
qed

section \<open>The result encoder and the work function\<close>

text \<open>
  Claim C8. The encoder builds, from any triple, the object with exactly the keys N, r
  and p, set in this order to the values it was given. The synchronous executor returns
  what the encoder builds from the resolver's triple, and the completion step passes what
  the encoder builds from the baton's triple as the second argument of the callback.
\<close>

theorem createJSONObject_keys_values:
  "createJSONObject n r' p' =
     Object [(''N'', Integer_New (Int32 n)), (''r'', Integer_New (UInt32 r')),
             (''p'', Integer_New (UInt32 p'))]
   \<and> (pickparams e mm mf mt = (0, n, r', p') \<longrightarrow>
        fst (ParamsSync e mm mf mt) = createJSONObject n r' p')
   \<and> (result baton = 0 \<longrightarrow>
        hd (ParamsAsyncAfter e baton) =
          Call (callback baton) [Null, createJSONObject (N baton) (r baton) (p baton)])"
  by (simp add: createJSONObject_def ParamsSync_def ParamsAsyncAfter_def call_callback_def)

theorem createJSONObject_keys_values_witness:
  "createJSONObject 16384 8 1 =
     Object [(''N'', Integer_New (Int32 16384)), (''r'', Integer_New (UInt32 8)),
             (''p'', Integer_New (UInt32 1))]
   \<and> pickparams (stub_env 0 None) 0 (Finite (1 / 2)) (Finite 5) = (0, 16384, 8, 1)
   \<and> fst (ParamsSync (stub_env 0 None) 0 (Finite (1 / 2)) (Finite 5)) = createJSONObject 16384 8 1
   \<and> result \<lparr>callback = Function 0, result = 0, maxmem = 0, maxmemfrac = Finite (1 / 2),
              maxtime = Finite 5, N = 16384, r = 8, p = 1\<rparr> = 0
   \<and> hd (ParamsAsyncAfter (stub_env 0 None)
            \<lparr>callback = Function 0, result = 0, maxmem = 0, maxmemfrac = Finite (1 / 2),
             maxtime = Finite 5, N = 16384, r = 8, p = 1\<rparr>) =
       Call (Function 0) [Null, createJSONObject 16384 8 1]"
  using createJSONObject_keys_values
    [of 16384 8 1 "stub_env 0 None" 0 "Finite (1 / 2)" "Finite 5"
        "\<lparr>callback = Function 0, result = 0, maxmem = 0, maxmemfrac = Finite (1 / 2),
          maxtime = Finite 5, N = 16384, r = 8, p = 1\<rparr>"]
  by (simp add: stub_env_def)

text \<open>
  Claim C9. The work function changes the result code and N, r and p of the baton and
  nothing else: the callback and the copied request stay as they were, the callback is
  not read (another callback in the baton gives the same outcome), and the only effect
  is the one call of the resolver.
\<close>

theorem ParamsWork_frame:
  "(\<exists>res n r' p'. fst (ParamsWork e baton) = baton\<lparr>result := res, N := n, r := r', p := p'\<rparr>)
   \<and> callback (fst (ParamsWork e baton)) = callback baton
   \<and> maxmem (fst (ParamsWork e baton)) = maxmem baton
   \<and> maxmemfrac (fst (ParamsWork e baton)) = maxmemfrac baton
   \<and> maxtime (fst (ParamsWork e baton)) = maxtime baton
   \<and> ParamsWork e (baton\<lparr>callback := c\<rparr>) =
       (fst (ParamsWork e baton)\<lparr>callback := c\<rparr>, snd (ParamsWork e baton))
   \<and> snd (ParamsWork e baton) = [Pickparams (maxmem baton) (maxmemfrac baton) (maxtime baton)]"
  by (auto simp: ParamsWork_def split: prod.splits)

end
